theory Spec2Isabelle
  imports Complex_Main "HOL-Library.FSet" "HOL-Library.Sublist"
begin

section \<open>Values and rows\<close>

text \<open>
  A JavaScript number is a double: not-a-number, an infinity, or a finite value (a
  rational; the two zeros are one value, as they are for \<open>Map\<close> and \<open>Set\<close> keys).
\<close>

datatype jsnum = NaN | PosInf | NegInf | Fin rat

text \<open>
  The values a property read on a row can give: \<open>undefined\<close>, \<open>null\<close>, booleans,
  numbers and strings (the cell values of a parsed sheet and of an edit), and
  \<open>JInherited k\<close>, the function or object that \<open>Object.prototype\<close> holds under the
  name \<open>k\<close>. Equality of this type is the equality \<open>Map.has\<close> and \<open>Set.has\<close> use on
  such values (SameValueZero: \<open>NaN\<close> equals itself, an object equals itself only, and
  the properties of \<open>Object.prototype\<close> are different objects).
\<close>

datatype jsval = JUndefined | JNull | JBool bool | JNum jsnum | JStr string | JInherited string

text \<open>
  \<open>interface ExcelRow { id: string; [key: string]: unknown }\<close>: an object, that is a
  finite map from property names to values; the identifier is the property \<open>id\<close>.
\<close>

type_synonym ExcelRow = "string \<rightharpoonup> jsval"

text \<open>
  A row is a plain object: the map holds its own properties, and its prototype is
  \<open>Object.prototype\<close>, whose property names are these.
\<close>

definition Object_prototype_keys :: "string list" where
  "Object_prototype_keys =
     [''constructor'', ''__defineGetter__'', ''__defineSetter__'', ''hasOwnProperty'',
      ''__lookupGetter__'', ''__lookupSetter__'', ''isPrototypeOf'',
      ''propertyIsEnumerable'', ''toString'', ''valueOf'', ''__proto__'',
      ''toLocaleString'']"

text \<open>
  \<open>row[key]\<close>: the row's own property if it has one, else the property inherited from
  \<open>Object.prototype\<close> if there is one, else \<open>undefined\<close>.
\<close>

definition getProp :: "ExcelRow \<Rightarrow> string \<Rightarrow> jsval" where
  "getProp row key =
     (case row key of
        Some v \<Rightarrow> v
      | None \<Rightarrow> (if key \<in> set Object_prototype_keys then JInherited key else JUndefined))"

section \<open>Duplicate detection\<close>

text \<open>
  \<open>findDuplicates\<close>: the \<open>forEach\<close> over the rows, with the loop index, the \<open>seen\<close> map
  (key value to first index) and the \<open>duplicateIndices\<close> array as loop state.
\<close>

fun findDuplicates_loop ::
  "ExcelRow list \<Rightarrow> string \<Rightarrow> nat \<Rightarrow> (jsval \<rightharpoonup> nat) \<Rightarrow> nat list \<Rightarrow> nat list" where
  "findDuplicates_loop [] uniqueKey index seen duplicateIndices = duplicateIndices"
| "findDuplicates_loop (row # rows) uniqueKey index seen duplicateIndices =
     (let keyValue = getProp row uniqueKey in
      if keyValue \<noteq> JUndefined \<and> keyValue \<noteq> JNull \<and> keyValue \<noteq> JStr [] then
        (if seen keyValue \<noteq> None
         then findDuplicates_loop rows uniqueKey (index + 1) seen (duplicateIndices @ [index])
         else findDuplicates_loop rows uniqueKey (index + 1) (seen(keyValue \<mapsto> index))
                duplicateIndices)
      else findDuplicates_loop rows uniqueKey (index + 1) seen duplicateIndices)"

definition findDuplicates :: "ExcelRow list \<Rightarrow> string \<Rightarrow> nat list" where
  "findDuplicates rows uniqueKey = findDuplicates_loop rows uniqueKey 0 Map.empty []"

text \<open>
  \<open>removeDuplicates\<close>: the \<open>filter\<close> over the rows, with the \<open>seen\<close> set as loop state.
\<close>

fun removeDuplicates_loop :: "ExcelRow list \<Rightarrow> string \<Rightarrow> jsval set \<Rightarrow> ExcelRow list" where
  "removeDuplicates_loop [] uniqueKey seen = []"
| "removeDuplicates_loop (row # rows) uniqueKey seen =
     (let keyValue = getProp row uniqueKey in
      if keyValue = JUndefined \<or> keyValue = JNull \<or> keyValue = JStr [] then
        row # removeDuplicates_loop rows uniqueKey seen
      else if keyValue \<in> seen then removeDuplicates_loop rows uniqueKey seen
      else row # removeDuplicates_loop rows uniqueKey (insert keyValue seen))"

definition removeDuplicates :: "ExcelRow list \<Rightarrow> string \<Rightarrow> ExcelRow list" where
  "removeDuplicates rows uniqueKey = removeDuplicates_loop rows uniqueKey {}"

text \<open>The key value of the row at a position, and the test the two functions share.\<close>

definition keyAt :: "ExcelRow list \<Rightarrow> string \<Rightarrow> nat \<Rightarrow> jsval" where
  "keyAt rows uniqueKey i = getProp (rows ! i) uniqueKey"

definition emptyKey :: "jsval \<Rightarrow> bool" where
  "emptyKey v = (v = JUndefined \<or> v = JNull \<or> v = JStr [])"


text \<open>
  Position \<open>j\<close> repeats a key value: its key value is not empty and is either in the
  set \<open>S\<close> of values seen before the list started or the key value of an earlier row.
\<close>

definition repeatsAt :: "ExcelRow list \<Rightarrow> string \<Rightarrow> jsval set \<Rightarrow> nat \<Rightarrow> bool" where
  "repeatsAt rows uniqueKey S j =
     (\<not> emptyKey (keyAt rows uniqueKey j) \<and>
      (keyAt rows uniqueKey j \<in> S \<or>
       (\<exists>j'<j. keyAt rows uniqueKey j' = keyAt rows uniqueKey j)))"

text \<open>Five rows whose \<open>email\<close> values are A, B, A, A, C.\<close>

definition keysABAAC :: "ExcelRow list" where
  "keysABAAC = map (\<lambda>e. [''email'' \<mapsto> JStr e]) [''A'', ''B'', ''A'', ''A'', ''C'']"

section \<open>The store\<close>

text \<open>\<open>interface CellError\<close>; the field \<open>value\<close> is named \<open>val\<close> here.\<close>

record CellError =
  row :: int
  column :: string
  message :: string
  val :: jsval

text \<open>\<open>interface School\<close>; the fields \<open>id\<close> and \<open>type\<close> are named \<open>sid\<close> and \<open>stype\<close>.\<close>

record School =
  sid :: string
  name :: string
  location :: "string option"
  stype :: "string option"

record AutocompleteState =
  activeCellKey :: "string option"
  searchQuery :: string
  suggestions :: "School list"
  isLoading :: bool
  highlightedIndex :: int

text \<open>The state part of \<open>interface ExcelUploadState\<close>; \<open>Set<string>\<close> is a finite set.\<close>

record ExcelUploadState =
  data :: "ExcelRow list"
  cellErrors :: "CellError list"
  duplicates :: "nat list"
  isProcessing :: bool
  fileName :: "string option"
  columns :: "string list"
  currentPage :: int
  pageSize :: int
  selectedRowIds :: "string fset"
  isDeleteDialogOpen :: bool
  autocomplete :: AutocompleteState

definition initialAutocompleteState :: AutocompleteState where
  "initialAutocompleteState =
     \<lparr>activeCellKey = None, searchQuery = [], suggestions = [], isLoading = False,
      highlightedIndex = - 1\<rparr>"

definition initialState :: ExcelUploadState where
  "initialState =
     \<lparr>data = [], cellErrors = [], duplicates = [], isProcessing = False, fileName = None,
      columns = [], currentPage = 1, pageSize = 10, selectedRowIds = {||},
      isDeleteDialogOpen = False, autocomplete = initialAutocompleteState\<rparr>"

text \<open>
  Each action takes the state last and returns the state after \<open>set\<close> has merged the
  action's partial state into it.
\<close>

definition setData :: "ExcelRow list \<Rightarrow> ExcelUploadState \<Rightarrow> ExcelUploadState" where
  "setData d s = s\<lparr>data := d\<rparr>"

definition setCellErrors :: "CellError list \<Rightarrow> ExcelUploadState \<Rightarrow> ExcelUploadState" where
  "setCellErrors es s = s\<lparr>cellErrors := es\<rparr>"

definition setDuplicates :: "nat list \<Rightarrow> ExcelUploadState \<Rightarrow> ExcelUploadState" where
  "setDuplicates ds s = s\<lparr>duplicates := ds\<rparr>"

text \<open>
  \<open>updateCell\<close>: \<open>state.data.map((row, index) => index === rowIndex ? {...row, [column]: value} : row)\<close>.
  The row index is any integer; the array indices are the naturals below the length.
\<close>

definition updateCell ::
  "int \<Rightarrow> string \<Rightarrow> jsval \<Rightarrow> ExcelUploadState \<Rightarrow> ExcelUploadState" where
  "updateCell rowIndex col v s =
     s\<lparr>data := map (\<lambda>(index, row). if int index = rowIndex then row(col \<mapsto> v) else row)
                 (enumerate 0 (data s))\<rparr>"

definition setCurrentPage :: "int \<Rightarrow> ExcelUploadState \<Rightarrow> ExcelUploadState" where
  "setCurrentPage p s = s\<lparr>currentPage := p\<rparr>"

definition setPageSize :: "int \<Rightarrow> ExcelUploadState \<Rightarrow> ExcelUploadState" where
  "setPageSize n s = s\<lparr>pageSize := n, currentPage := 1\<rparr>"

text \<open>\<open>state.selectedRowIds.has(row.id)\<close>: only a string can be a member of a \<open>Set<string>\<close>.\<close>

definition has :: "string fset \<Rightarrow> jsval \<Rightarrow> bool" where
  "has ids v = (case v of JStr x \<Rightarrow> x |\<in>| ids | _ \<Rightarrow> False)"

definition toggleRowSelection :: "string \<Rightarrow> ExcelUploadState \<Rightarrow> ExcelUploadState" where
  "toggleRowSelection rowId s =
     s\<lparr>selectedRowIds :=
          (if rowId |\<in>| selectedRowIds s then selectedRowIds s |-| {|rowId|}
           else finsert rowId (selectedRowIds s))\<rparr>"

definition selectAllRows :: "string list \<Rightarrow> ExcelUploadState \<Rightarrow> ExcelUploadState" where
  "selectAllRows rowIds s = s\<lparr>selectedRowIds := fold finsert rowIds (selectedRowIds s)\<rparr>"

definition deleteSelectedRows :: "ExcelUploadState \<Rightarrow> ExcelUploadState" where
  "deleteSelectedRows s =
     s\<lparr>data := filter (\<lambda>r. \<not> has (selectedRowIds s) (getProp r ''id'')) (data s),
       selectedRowIds := {||},
       isDeleteDialogOpen := False\<rparr>"

definition openDeleteDialog :: "ExcelUploadState \<Rightarrow> ExcelUploadState" where
  "openDeleteDialog s =
     (if fcard (selectedRowIds s) > 0 then s\<lparr>isDeleteDialogOpen := True\<rparr> else s)"

text \<open>
  \<open>setActiveAutocompleteCell\<close>: the test \<open>cellKey ? \<dots> : []\<close> is on the truthiness of
  the key, so \<open>null\<close> and the empty string both take the second branch.
\<close>

definition setActiveAutocompleteCell ::
  "string option \<Rightarrow> ExcelUploadState \<Rightarrow> ExcelUploadState" where
  "setActiveAutocompleteCell cellKey s =
     s\<lparr>autocomplete := (autocomplete s)
          \<lparr>activeCellKey := cellKey,
           suggestions := (if cellKey \<noteq> None \<and> cellKey \<noteq> Some []
                           then suggestions (autocomplete s) else []),
           highlightedIndex := - 1\<rparr>\<rparr>"

text \<open>
  The table's \<open>totalPages = Math.ceil(data.length / pageSize)\<close>: a division by zero
  gives an infinity, or not-a-number when there is no row.
\<close>

definition totalPages :: "nat \<Rightarrow> int \<Rightarrow> jsnum" where
  "totalPages n sz =
     (if sz = 0 then (if n = 0 then NaN else PosInf)
      else Fin (of_int \<lceil>rat_of_nat n / rat_of_int sz\<rceil>))"

section \<open>Validation\<close>

text \<open>
  \<open>Number(value)\<close>, the coercion of \<open>z.coerce\<close>. The conversion of a string to a number
  is ECMAScript's and is a parameter \<open>strToNum\<close> of the model.
\<close>

definition toNumber :: "(string \<Rightarrow> jsnum) \<Rightarrow> jsval \<Rightarrow> jsnum" where
  "toNumber strToNum v =
     (case v of
        JUndefined \<Rightarrow> NaN
      | JNull \<Rightarrow> Fin 0
      | JBool b \<Rightarrow> (if b then Fin 1 else Fin 0)
      | JNum n \<Rightarrow> n
      | JStr str \<Rightarrow> strToNum str
      | JInherited k \<Rightarrow> NaN)"

definition isInteger :: "rat \<Rightarrow> bool" where
  "isInteger q = (rat_of_int \<lfloor>q\<rfloor> = q)"

text \<open>The checks chained on a number schema, each with its message.\<close>

datatype number_check = CheckInt string | CheckMin rat string | CheckMax rat string

text \<open>
  Modelled from the spec: the number schema of the zod library, which is not part of the
  repository. A bounded numeric field fails if the value is not coercible to a number,
  not integral, or outside the inclusive range; the result is the list of the messages
  of the issues found, empty on success. A value that is not an integer stops the
  checks; the bounds are inclusive.
\<close>

fun run_checks :: "number_check list \<Rightarrow> rat \<Rightarrow> string list" where
  "run_checks [] q = []"
| "run_checks (CheckInt msg # checks) q = (if isInteger q then run_checks checks q else [msg])"
| "run_checks (CheckMin lo msg # checks) q =
     (if q < lo then msg # run_checks checks q else run_checks checks q)"
| "run_checks (CheckMax hi msg # checks) q =
     (if hi < q then msg # run_checks checks q else run_checks checks q)"

definition coerce_number ::
  "(string \<Rightarrow> jsnum) \<Rightarrow> string \<Rightarrow> number_check list \<Rightarrow> jsval \<Rightarrow> string list" where
  "coerce_number strToNum msg checks v =
     (case toNumber strToNum v of Fin q \<Rightarrow> run_checks checks q | _ \<Rightarrow> [msg])"

text \<open>
  \<open>ExcelRowSchema.age\<close>:
  \<open>z.coerce.number({message}).int({message}).min(0, {message}).max(150, {message})\<close>.
\<close>

definition age :: "(string \<Rightarrow> jsnum) \<Rightarrow> jsval \<Rightarrow> string list" where
  "age strToNum =
     coerce_number strToNum ''Age must be a number''
       [CheckInt ''Age must be a whole number'',
        CheckMin 0 ''Age cannot be negative'',
        CheckMax 150 ''Age cannot exceed 150'']"

text \<open>
  What \<open>shape[column]\<close> is when \<open>column in shape\<close> holds: a field schema, given by its
  \<open>safeParse\<close> (the messages of the issues), or a property without \<open>safeParse\<close>, on
  which the call throws.
\<close>

datatype shape_prop = Schema "jsval \<Rightarrow> string list" | NotASchema

text \<open>
  \<open>ExcelRowSchema.shape\<close>: the field \<open>age\<close> is the schema above; the other properties
  are a parameter of the model.
\<close>

definition ExcelRowSchema_shape ::
  "(string \<Rightarrow> jsnum) \<Rightarrow> (string \<Rightarrow> shape_prop option) \<Rightarrow> string \<Rightarrow> shape_prop option" where
  "ExcelRowSchema_shape strToNum others col =
     (if col = ''age'' then Some (Schema (age strToNum)) else others col)"

text \<open>
  \<open>validateCell\<close>: \<open>None\<close> is \<open>null\<close>. The message is that of the first issue, or
  \<open>Invalid value\<close> when that message is empty; the \<open>catch\<close> branch is the last case.
\<close>

definition validateCell ::
  "(string \<Rightarrow> shape_prop option) \<Rightarrow> string \<Rightarrow> jsval \<Rightarrow> int \<Rightarrow> CellError option" where
  "validateCell shape col v r =
     (case shape col of
        None \<Rightarrow> None
      | Some (Schema safeParse) \<Rightarrow>
          (case safeParse v of
             [] \<Rightarrow> None
           | m # _ \<Rightarrow>
               Some \<lparr>row = r, column = col,
                     message = (if m = [] then ''Invalid value'' else m), val = v\<rparr>)
      | Some NotASchema \<Rightarrow>
          Some \<lparr>row = r, column = col, message = ''Validation error'', val = v\<rparr>)"

definition validateAllCells ::
  "(string \<Rightarrow> shape_prop option) \<Rightarrow> ExcelRow list \<Rightarrow> string list \<Rightarrow> CellError list" where
  "validateAllCells shape rows cols =
     concat (map (\<lambda>(rowIndex, r).
        concat (map (\<lambda>col.
          if col = ''id'' then []
          else (case validateCell shape col (getProp r col) (int rowIndex) of
                  None \<Rightarrow> [] | Some e \<Rightarrow> [e])) cols))
        (enumerate 0 rows))"

section \<open>The uploader's handlers\<close>

definition handleRemoveDuplicates ::
  "(string \<Rightarrow> shape_prop option) \<Rightarrow> ExcelUploadState \<Rightarrow> ExcelUploadState" where
  "handleRemoveDuplicates shape s =
     (let cleanedData = removeDuplicates (data s) ''email'';
          s1 = setData cleanedData s;
          s2 = setDuplicates [] s1;
          errors = validateAllCells shape cleanedData (columns s)
      in setCellErrors errors s2)"

section \<open>The school service\<close>

definition MOCK_SCHOOLS :: "School list" where
  "MOCK_SCHOOLS =
     [\<lparr>sid = ''1'', name = ''Springfield Elementary School'',
        location = Some ''Springfield'', stype = Some ''public''\<rparr>,
      \<lparr>sid = ''2'', name = ''Springfield High School'',
        location = Some ''Springfield'', stype = Some ''public''\<rparr>,
      \<lparr>sid = ''3'', name = ''Riverside Academy'',
        location = Some ''Riverside'', stype = Some ''private''\<rparr>,
      \<lparr>sid = ''4'', name = ''Riverside Middle School'',
        location = Some ''Riverside'', stype = Some ''public''\<rparr>,
      \<lparr>sid = ''5'', name = ''Oak Grove Elementary'',
        location = Some ''Oak Grove'', stype = Some ''public''\<rparr>,
      \<lparr>sid = ''6'', name = ''Oak Grove High School'',
        location = Some ''Oak Grove'', stype = Some ''public''\<rparr>,
      \<lparr>sid = ''7'', name = ''Westside Preparatory Academy'',
        location = Some ''Westside'', stype = Some ''private''\<rparr>,
      \<lparr>sid = ''8'', name = ''Westside Charter School'',
        location = Some ''Westside'', stype = Some ''charter''\<rparr>,
      \<lparr>sid = ''9'', name = ''Central City Academy'',
        location = Some ''Central City'', stype = Some ''private''\<rparr>,
      \<lparr>sid = ''10'', name = ''Central High School'',
        location = Some ''Central City'', stype = Some ''public''\<rparr>,
      \<lparr>sid = ''11'', name = ''Northview Elementary'',
        location = Some ''Northview'', stype = Some ''public''\<rparr>,
      \<lparr>sid = ''12'', name = ''Northview Middle School'',
        location = Some ''Northview'', stype = Some ''public''\<rparr>,
      \<lparr>sid = ''13'', name = ''Southside Academy'',
        location = Some ''Southside'', stype = Some ''private''\<rparr>,
      \<lparr>sid = ''14'', name = ''Lakeside Academy'',
        location = Some ''Lakeside'', stype = Some ''private''\<rparr>,
      \<lparr>sid = ''15'', name = ''Mountain View School'',
        location = Some ''Mountain View'', stype = Some ''public''\<rparr>,
      \<lparr>sid = ''16'', name = ''Valley Heights Academy'',
        location = Some ''Valley Heights'', stype = Some ''private''\<rparr>]"

text \<open>
  A character here is a code unit below 256, that is a character of Latin-1, and the
  string functions are those of JavaScript on such strings. \<open>toLowerCase\<close> maps A to Z
  onto a to z and the accented capitals 0xC0 to 0xDE, without the multiplication sign
  0xD7, onto 0xE0 to 0xFE. \<open>trim\<close> removes the white space and line terminators at both
  ends: tab, line feed, vertical tab, form feed, carriage return, space and the
  no-break space 0xA0.
\<close>

definition upperCaseLetters :: string where
  "upperCaseLetters =
     ''ABCDEFGHIJKLMNOPQRSTUVWXYZ'' @
     [CHR 0xC0, CHR 0xC1, CHR 0xC2, CHR 0xC3, CHR 0xC4, CHR 0xC5, CHR 0xC6, CHR 0xC7,
      CHR 0xC8, CHR 0xC9, CHR 0xCA, CHR 0xCB, CHR 0xCC, CHR 0xCD, CHR 0xCE, CHR 0xCF,
      CHR 0xD0, CHR 0xD1, CHR 0xD2, CHR 0xD3, CHR 0xD4, CHR 0xD5, CHR 0xD6,
      CHR 0xD8, CHR 0xD9, CHR 0xDA, CHR 0xDB, CHR 0xDC, CHR 0xDD, CHR 0xDE]"

definition lowerCaseLetters :: string where
  "lowerCaseLetters =
     ''abcdefghijklmnopqrstuvwxyz'' @
     [CHR 0xE0, CHR 0xE1, CHR 0xE2, CHR 0xE3, CHR 0xE4, CHR 0xE5, CHR 0xE6, CHR 0xE7,
      CHR 0xE8, CHR 0xE9, CHR 0xEA, CHR 0xEB, CHR 0xEC, CHR 0xED, CHR 0xEE, CHR 0xEF,
      CHR 0xF0, CHR 0xF1, CHR 0xF2, CHR 0xF3, CHR 0xF4, CHR 0xF5, CHR 0xF6,
      CHR 0xF8, CHR 0xF9, CHR 0xFA, CHR 0xFB, CHR 0xFC, CHR 0xFD, CHR 0xFE]"

definition toLowerCase_char :: "char \<Rightarrow> char" where
  "toLowerCase_char c =
     (case map_of (zip upperCaseLetters lowerCaseLetters) c of None \<Rightarrow> c | Some l \<Rightarrow> l)"

definition toLowerCase :: "string \<Rightarrow> string" where
  "toLowerCase str = map toLowerCase_char str"

definition isWhiteSpace :: "char \<Rightarrow> bool" where
  "isWhiteSpace c =
     (c \<in> set [CHR 0x09, CHR 0x0A, CHR 0x0B, CHR 0x0C, CHR 0x0D, CHR '' '', CHR 0xA0])"

definition trim :: "string \<Rightarrow> string" where
  "trim str = rev (dropWhile isWhiteSpace (rev (dropWhile isWhiteSpace str)))"

datatype fetch_error = AbortError

text \<open>
  \<open>fetchSchools\<close>, as the value its promise settles to: \<open>Inl\<close> is the rejection. The
  argument \<open>signal\<close> is \<open>None\<close> when no signal is passed and otherwise tells whether the
  signal is aborted by the time the delay is over. \<open>String.includes\<close> is \<open>sublist\<close>.
\<close>

definition fetchSchools :: "string \<Rightarrow> bool option \<Rightarrow> fetch_error + School list" where
  "fetchSchools query signal =
     (if signal = Some True then Inl AbortError
      else if query = [] \<or> length (trim query) < 2 then Inr []
      else
        (let searchTerm = trim (toLowerCase query)
         in Inr (take 10
              (filter (\<lambda>school. sublist searchTerm (toLowerCase (name school)))
                 MOCK_SCHOOLS))))"

text \<open>
  The same function over any table of schools; \<open>fetchSchools\<close> is its instance at
  \<open>MOCK_SCHOOLS\<close>. It serves to say that a branch does not read the table: the result
  of that branch is the same for every table.
\<close>

definition fetchSchools_on ::
  "School list \<Rightarrow> string \<Rightarrow> bool option \<Rightarrow> fetch_error + School list" where
  "fetchSchools_on schools query signal =
     (if signal = Some True then Inl AbortError
      else if query = [] \<or> length (trim query) < 2 then Inr []
      else
        (let searchTerm = trim (toLowerCase query)
         in Inr (take 10
              (filter (\<lambda>school. sublist searchTerm (toLowerCase (name school)))
                 schools))))"

section \<open>States used as examples\<close>

definition school1 :: School where
  "school1 = \<lparr>sid = ''1'', name = ''Springfield Elementary School'',
              location = Some ''Springfield'', stype = Some ''public''\<rparr>"

definition row1 :: ExcelRow where
  "row1 = [''id'' \<mapsto> JStr ''r1'', ''email'' \<mapsto> JStr ''a@x.org'', ''age'' \<mapsto> JNum (Fin 30)]"

definition row2 :: ExcelRow where
  "row2 = [''id'' \<mapsto> JStr ''r2'', ''email'' \<mapsto> JStr ''b@x.org'', ''age'' \<mapsto> JNum (Fin 41)]"

definition row3 :: ExcelRow where
  "row3 = [''id'' \<mapsto> JStr ''r3'', ''email'' \<mapsto> JStr ''a@x.org'', ''age'' \<mapsto> JNum (Fin 52)]"

text \<open>Three rows, the second selected, a session active on the first row's school cell.\<close>

definition state3 :: ExcelUploadState where
  "state3 =
     initialState
       \<lparr>data := [row1, row2, row3],
        columns := [''email'', ''age''],
        selectedRowIds := {|''r2''|},
        autocomplete := \<lparr>activeCellKey = Some ''r1-school'', searchQuery = ''spr'',
                          suggestions = [school1], isLoading = False,
                          highlightedIndex = 0\<rparr>\<rparr>"

text \<open>
  Twenty-three rows with distinct identifiers and one email address, shown ten to a
  page, on page 3.
\<close>

definition rowN :: "nat \<Rightarrow> ExcelRow" where
  "rowN i = [''id'' \<mapsto> JStr (''r'' @ replicate i (CHR ''i'')), ''email'' \<mapsto> JStr ''a@x.org'']"

definition state23 :: ExcelUploadState where
  "state23 = initialState\<lparr>data := map rowN [0..<23], currentPage := 3, pageSize := 10\<rparr>"

section \<open>Properties of the duplicate detector\<close>

lemma keyAt_Cons_Suc: "keyAt (r # rows) k (Suc j) = keyAt rows k j"
  by (simp add: keyAt_def)

lemma keyAt_Cons_0: "keyAt (r # rows) k 0 = getProp r k"
  by (simp add: keyAt_def)

lemma ex_less_Suc_keyAt:
  "(\<exists>j'<Suc j. keyAt (r # rows) k j' = v) \<longleftrightarrow>
     (getProp r k = v \<or> (\<exists>j'<j. keyAt rows k j' = v))"
proof
  assume "\<exists>j'<Suc j. keyAt (r # rows) k j' = v"
  then obtain j' where j': "j' < Suc j" "keyAt (r # rows) k j' = v" by blast
  show "getProp r k = v \<or> (\<exists>j'<j. keyAt rows k j' = v)"
  proof (cases j')
    case 0
    with j' show ?thesis by (simp add: keyAt_Cons_0)
  next
    case (Suc m)
    with j' have "m < j" "keyAt rows k m = v" by (simp_all add: keyAt_Cons_Suc)
    then show ?thesis by blast
  qed
next
  assume "getProp r k = v \<or> (\<exists>j'<j. keyAt rows k j' = v)"
  then show "\<exists>j'<Suc j. keyAt (r # rows) k j' = v"
  proof
    assume "getProp r k = v"
    then have "keyAt (r # rows) k 0 = v" by (simp add: keyAt_Cons_0)
    then show ?thesis by blast
  next
    assume "\<exists>j'<j. keyAt rows k j' = v"
    then obtain m where "m < j" "keyAt rows k m = v" by blast
    then have "Suc m < Suc j" "keyAt (r # rows) k (Suc m) = v"
      by (simp_all add: keyAt_Cons_Suc)
    then show ?thesis by blast
  qed
qed

lemma repeatsAt_Suc:
  "repeatsAt (r # rows) k S (Suc j) =
     repeatsAt rows k (if emptyKey (getProp r k) then S else insert (getProp r k) S) j"
  unfolding repeatsAt_def keyAt_Cons_Suc ex_less_Suc_keyAt
  by auto

lemma repeatsAt_0: "repeatsAt (r # rows) k S 0 = (\<not> emptyKey (getProp r k) \<and> getProp r k \<in> S)"
  by (simp add: repeatsAt_def keyAt_Cons_0)

lemma upt_Suc_shift: "[0..<Suc n] = 0 # map Suc [0..<n]"
  by (simp only: upt_conv_Cons zero_less_Suc map_Suc_upt if_True)

lemma filter_repeats_Cons:
  "filter (repeatsAt (r # rows) k S) [0..<length (r # rows)] =
     (if \<not> emptyKey (getProp r k) \<and> getProp r k \<in> S then [0] else []) @
     map Suc (filter (repeatsAt rows k
        (if emptyKey (getProp r k) then S else insert (getProp r k) S)) [0..<length rows])"
proof -
  have "filter (repeatsAt (r # rows) k S) (map Suc xs) =
        map Suc (filter (repeatsAt rows k
          (if emptyKey (getProp r k) then S else insert (getProp r k) S)) xs)" for xs
    by (induction xs) (simp_all add: repeatsAt_Suc)
  then show ?thesis
    by (simp add: upt_Suc_shift repeatsAt_0 del: upt_Suc)
qed

lemma findDuplicates_loop_append: "findDuplicates_loop rows k i seen (ds @ es) = ds @ findDuplicates_loop rows k i seen es"
  by (induction rows arbitrary: i seen es) (auto simp: Let_def)

lemma findDuplicates_loop_list:
  "findDuplicates_loop rows k i seen [] =
     map (\<lambda>j. i + j) (filter (repeatsAt rows k (dom seen)) [0..<length rows])"
proof (induction rows arbitrary: i seen)
  case Nil
  then show ?case by simp
next
  case (Cons r rows)
  let ?v = "getProp r k"
  show ?case
  proof (cases "emptyKey ?v")
    case True
    then have "findDuplicates_loop (r # rows) k i seen [] = findDuplicates_loop rows k (Suc i) seen []"
      by (auto simp: emptyKey_def)
    also have "\<dots> = map (\<lambda>j. Suc i + j) (filter (repeatsAt rows k (dom seen)) [0..<length rows])"
      by (rule Cons.IH)
    finally show ?thesis using True
      by (simp only: filter_repeats_Cons) (simp add: comp_def)
  next
    case False
    note ne = this
    show ?thesis
    proof (cases "seen ?v")
      case None
      then have nd: "?v \<notin> dom seen" by (simp add: domIff)
      from ne None have "findDuplicates_loop (r # rows) k i seen [] =
          findDuplicates_loop rows k (Suc i) (seen(?v \<mapsto> i)) []"
        by (auto simp: emptyKey_def)
      also have "\<dots> = map (\<lambda>j. Suc i + j)
          (filter (repeatsAt rows k (dom (seen(?v \<mapsto> i)))) [0..<length rows])"
        by (rule Cons.IH)
      finally show ?thesis using ne nd
        by (simp only: filter_repeats_Cons) (simp add: comp_def)
    next
      case (Some a)
      then have d: "?v \<in> dom seen" by (simp add: domIff)
      from ne Some have "findDuplicates_loop (r # rows) k i seen [] =
          findDuplicates_loop rows k (Suc i) seen ([i] @ [])"
        by (auto simp: emptyKey_def)
      also have "\<dots> = [i] @ findDuplicates_loop rows k (Suc i) seen []"
        by (rule findDuplicates_loop_append)
      also have "findDuplicates_loop rows k (Suc i) seen [] =
          map (\<lambda>j. Suc i + j) (filter (repeatsAt rows k (dom seen)) [0..<length rows])"
        by (rule Cons.IH)
      finally show ?thesis using ne d
        by (simp only: filter_repeats_Cons) (simp add: comp_def insert_absorb)
    qed
  qed
qed

lemma findDuplicates_list:
  "findDuplicates rows k = filter (repeatsAt rows k {}) [0..<length rows]"
  by (simp add: findDuplicates_def findDuplicates_loop_list)


lemma filter_firsts_Cons:
  "filter (\<lambda>j. \<not> repeatsAt (r # rows) k S j) [0..<length (r # rows)] =
     (if \<not> emptyKey (getProp r k) \<and> getProp r k \<in> S then [] else [0]) @
     map Suc (filter (\<lambda>j. \<not> repeatsAt rows k
        (if emptyKey (getProp r k) then S else insert (getProp r k) S) j) [0..<length rows])"
proof -
  have "filter (\<lambda>j. \<not> repeatsAt (r # rows) k S j) (map Suc xs) =
        map Suc (filter (\<lambda>j. \<not> repeatsAt rows k
          (if emptyKey (getProp r k) then S else insert (getProp r k) S) j) xs)" for xs
    by (induction xs) (simp_all add: repeatsAt_Suc)
  then show ?thesis
    by (simp add: upt_Suc_shift repeatsAt_0 del: upt_Suc)
qed

lemma removeDuplicates_loop_list:
  "removeDuplicates_loop rows k S =
     map (\<lambda>j. rows ! j) (filter (\<lambda>j. \<not> repeatsAt rows k S j) [0..<length rows])"
proof (induction rows arbitrary: S)
  case Nil
  then show ?case by simp
next
  case (Cons r rows)
  let ?v = "getProp r k"
  have step: "removeDuplicates_loop (r # rows) k S =
      (if \<not> emptyKey ?v \<and> ?v \<in> S then [] else [r]) @
      removeDuplicates_loop rows k (if emptyKey ?v then S else insert ?v S)"
    by (auto simp: emptyKey_def Let_def insert_absorb)
  show ?case
    by (simp only: step Cons.IH filter_firsts_Cons) (simp add: comp_def)
qed

lemma removeDuplicates_loop_idem:
  "T \<subseteq> S \<Longrightarrow> removeDuplicates_loop (removeDuplicates_loop rows k S) k T =
     removeDuplicates_loop rows k S"
proof (induction rows arbitrary: S T)
  case Nil
  then show ?case by simp
next
  case (Cons r rows)
  let ?v = "getProp r k"
  show ?case
  proof (cases "emptyKey ?v")
    case True
    with Cons show ?thesis by (auto simp: emptyKey_def Let_def)
  next
    case False
    show ?thesis
    proof (cases "?v \<in> S")
      case True
      with False Cons show ?thesis by (auto simp: emptyKey_def Let_def)
    next
      case notin: False
      with Cons.prems have "?v \<notin> T" by blast
      moreover from Cons.prems have "insert ?v T \<subseteq> insert ?v S" by blast
      then have "removeDuplicates_loop (removeDuplicates_loop rows k (insert ?v S)) k (insert ?v T) =
          removeDuplicates_loop rows k (insert ?v S)"
        by (rule Cons.IH)
      ultimately show ?thesis using False notin by (auto simp: emptyKey_def Let_def)
    qed
  qed
qed

text \<open>
  Claim C1. \<open>findDuplicates\<close> returns exactly the positions whose key value is not
  empty (not \<open>undefined\<close>, \<open>null\<close> or the empty string) and equals the key value of an
  earlier r, each once and in ascending order; so a first occurrence and a r with
  an empty key value are never returned, and position 0 never is. On the key values
  A, B, A, A, C the result is the positions 2 and 3.
\<close>

theorem findDuplicates_positions:
  "set (findDuplicates rows uniqueKey) =
     {i. i < length rows \<and> \<not> emptyKey (keyAt rows uniqueKey i) \<and>
         (\<exists>j<i. keyAt rows uniqueKey j = keyAt rows uniqueKey i)}
   \<and> sorted_wrt (<) (findDuplicates rows uniqueKey)
   \<and> 0 \<notin> set (findDuplicates rows uniqueKey)
   \<and> findDuplicates keysABAAC ''email'' = [2, 3]"
proof -
  have l: "findDuplicates rows uniqueKey =
      filter (repeatsAt rows uniqueKey {}) [0..<length rows]"
    by (rule findDuplicates_list)
  have 1: "set (findDuplicates rows uniqueKey) =
     {i. i < length rows \<and> \<not> emptyKey (keyAt rows uniqueKey i) \<and>
         (\<exists>j<i. keyAt rows uniqueKey j = keyAt rows uniqueKey i)}"
    unfolding l by (auto simp: repeatsAt_def)
  have 2: "sorted_wrt (<) (findDuplicates rows uniqueKey)"
    unfolding l by (rule sorted_wrt_filter) simp
  have 3: "0 \<notin> set (findDuplicates rows uniqueKey)"
    unfolding 1 by simp
  have 4: "findDuplicates keysABAAC ''email'' = [2, 3]"
    by (simp add: keysABAAC_def findDuplicates_def getProp_def Object_prototype_keys_def)
  from 1 2 3 4 show ?thesis by blast
qed

theorem findDuplicates_positions_witness:
  "set (findDuplicates keysABAAC ''email'') = {2, 3}
   \<and> (\<exists>j<2. keyAt keysABAAC ''email'' j = keyAt keysABAAC ''email'' 2)
   \<and> \<not> emptyKey (keyAt keysABAAC ''email'' 2)
   \<and> \<not> (\<exists>j<1. keyAt keysABAAC ''email'' j = keyAt keysABAAC ''email'' 1)"
proof -
  have a: "keyAt keysABAAC ''email'' 0 = keyAt keysABAAC ''email'' 2"
    by (simp add: keysABAAC_def keyAt_def getProp_def Object_prototype_keys_def)
  have b: "\<not> emptyKey (keyAt keysABAAC ''email'' 2)"
    by (simp add: keysABAAC_def keyAt_def getProp_def Object_prototype_keys_def emptyKey_def)
  have c: "keyAt keysABAAC ''email'' 0 \<noteq> keyAt keysABAAC ''email'' 1"
    by (simp add: keysABAAC_def keyAt_def getProp_def Object_prototype_keys_def)
  have len: "2 < length keysABAAC" by (simp add: keysABAAC_def)
  from a have ex: "\<exists>j<2. keyAt keysABAAC ''email'' j = keyAt keysABAAC ''email'' 2"
    by (intro exI[of _ 0]) simp
  from findDuplicates_positions [of keysABAAC "''email''"]
  have s: "set (findDuplicates keysABAAC ''email'') =
     {i. i < length keysABAAC \<and> \<not> emptyKey (keyAt keysABAAC ''email'' i) \<and>
         (\<exists>j<i. keyAt keysABAAC ''email'' j = keyAt keysABAAC ''email'' i)}"
    and e: "findDuplicates keysABAAC ''email'' = [2, 3]" by blast+
  from len b ex have "2 \<in> {i. i < length keysABAAC \<and> \<not> emptyKey (keyAt keysABAAC ''email'' i) \<and>
         (\<exists>j<i. keyAt keysABAAC ''email'' j = keyAt keysABAAC ''email'' i)}" by simp
  moreover from c have "\<not> (\<exists>j<1. keyAt keysABAAC ''email'' j = keyAt keysABAAC ''email'' 1)"
    by simp
  moreover from e have "set (findDuplicates keysABAAC ''email'') = {2, 3}" by simp
  ultimately show ?thesis using ex b by blast
qed

text \<open>
  Claim C2. \<open>removeDuplicates\<close> returns the rows at the positions whose key value is
  empty or differs from the key value of every earlier r, in their original order and
  unchanged; and applying it a second time changes nothing.
\<close>

theorem removeDuplicates_first_occurrences:
  "removeDuplicates rows uniqueKey =
     map (\<lambda>i. rows ! i)
       (filter (\<lambda>i. emptyKey (keyAt rows uniqueKey i) \<or>
                   \<not> (\<exists>j<i. keyAt rows uniqueKey j = keyAt rows uniqueKey i))
          [0..<length rows])
   \<and> removeDuplicates (removeDuplicates rows uniqueKey) uniqueKey =
       removeDuplicates rows uniqueKey"
proof
  have "(\<lambda>i. \<not> repeatsAt rows uniqueKey {} i) =
      (\<lambda>i. emptyKey (keyAt rows uniqueKey i) \<or>
                   \<not> (\<exists>j<i. keyAt rows uniqueKey j = keyAt rows uniqueKey i))"
    by (auto simp: repeatsAt_def)
  then show "removeDuplicates rows uniqueKey =
     map (\<lambda>i. rows ! i)
       (filter (\<lambda>i. emptyKey (keyAt rows uniqueKey i) \<or>
                   \<not> (\<exists>j<i. keyAt rows uniqueKey j = keyAt rows uniqueKey i))
          [0..<length rows])"
    by (simp add: removeDuplicates_def removeDuplicates_loop_list)
  show "removeDuplicates (removeDuplicates rows uniqueKey) uniqueKey =
       removeDuplicates rows uniqueKey"
    unfolding removeDuplicates_def by (rule removeDuplicates_loop_idem) simp
qed

theorem removeDuplicates_first_occurrences_witness:
  "removeDuplicates keysABAAC ''email'' = [keysABAAC ! 0, keysABAAC ! 1, keysABAAC ! 4]
   \<and> removeDuplicates (removeDuplicates keysABAAC ''email'') ''email'' =
       [keysABAAC ! 0, keysABAAC ! 1, keysABAAC ! 4]"
proof -
  have e: "removeDuplicates keysABAAC ''email'' = [keysABAAC ! 0, keysABAAC ! 1, keysABAAC ! 4]"
    by (simp add: keysABAAC_def removeDuplicates_def getProp_def Object_prototype_keys_def)
  have i: "removeDuplicates (removeDuplicates keysABAAC ''email'') ''email'' =
      removeDuplicates keysABAAC ''email''"
    using removeDuplicates_first_occurrences [of keysABAAC "''email''"] by (rule conjunct2)
  show ?thesis unfolding i using e by simp
qed

text \<open>
  A key field that no row has as its own property but that \<open>Object.prototype\<close> has:
  every row then reads the same inherited value, so every row after the first repeats it.
\<close>

lemma duplicates_on_inherited_key:
  "findDuplicates [row1, row2, row3] ''toString'' = [1, 2]
   \<and> removeDuplicates [row1, row2, row3] ''toString'' = [row1]"
proof -
  have k: "getProp row1 ''toString'' = JInherited ''toString''"
    "getProp row2 ''toString'' = JInherited ''toString''"
    "getProp row3 ''toString'' = JInherited ''toString''"
    by (simp_all add: getProp_def Object_prototype_keys_def row1_def row2_def row3_def)
  show ?thesis by (simp add: findDuplicates_def removeDuplicates_def k)
qed

section \<open>Properties of the store\<close>

lemma length_updateCell: "length (data (updateCell rowIndex col v s)) = length (data s)"
  by (simp add: updateCell_def)

lemma nth_updateCell:
  "i < length (data s) \<Longrightarrow>
   data (updateCell rowIndex col v s) ! i =
     (if int i = rowIndex then (data s ! i)(col \<mapsto> v) else data s ! i)"
  by (simp add: updateCell_def nth_enumerate_eq)

lemma updateCell_frame: "updateCell rowIndex col v s = s\<lparr>data := data (updateCell rowIndex col v s)\<rparr>"
  by (simp add: updateCell_def)

lemma updateCell_in_range:
  assumes "0 \<le> rowIndex" "rowIndex < int (length (data s))"
  shows "data (updateCell rowIndex col v s) =
     (data s)[nat rowIndex := (data s ! nat rowIndex)(col \<mapsto> v)]"
proof (rule nth_equalityI)
  show "length (data (updateCell rowIndex col v s)) =
      length ((data s)[nat rowIndex := (data s ! nat rowIndex)(col \<mapsto> v)])"
    by (simp add: length_updateCell)
next
  fix i assume "i < length (data (updateCell rowIndex col v s))"
  then have i: "i < length (data s)" by (simp add: length_updateCell)
  from assms(1) have eq: "(int i = rowIndex) = (i = nat rowIndex)" by auto
  show "data (updateCell rowIndex col v s) ! i =
      (data s)[nat rowIndex := (data s ! nat rowIndex)(col \<mapsto> v)] ! i"
    using i by (simp add: nth_updateCell eq nth_list_update)
qed

lemma updateCell_skips_every_row:
  assumes "rowIndex < 0 \<or> int (length (data s)) \<le> rowIndex"
  shows "updateCell rowIndex col v s = s"
proof -
  have "data (updateCell rowIndex col v s) = data s"
  proof (rule nth_equalityI)
    show "length (data (updateCell rowIndex col v s)) = length (data s)"
      by (rule length_updateCell)
  next
    fix i assume "i < length (data (updateCell rowIndex col v s))"
    then have i: "i < length (data s)" by (simp add: length_updateCell)
    with assms have "int i \<noteq> rowIndex" by auto
    with i show "data (updateCell rowIndex col v s) ! i = data s ! i"
      by (simp add: nth_updateCell)
  qed
  then show ?thesis using updateCell_frame[of rowIndex col v s] by simp
qed

text \<open>
  Claim C3, as amended. For a row position in range and a column other than \<open>id\<close>,
  \<open>updateCell\<close> replaces only the named field of the addressed row: the row's
  identifier and all its other fields are kept, every other row is unchanged, and so is
  all state outside the data (errors, duplicates, page, page size, selection, dialog,
  autocomplete).
\<close>

theorem updateCell_replaces_named_field:
  assumes "0 \<le> rowIndex" "rowIndex < int (length (data s))" "col \<noteq> ''id''"
  shows "updateCell rowIndex col v s =
           s\<lparr>data := (data s)[nat rowIndex := (data s ! nat rowIndex)(col \<mapsto> v)]\<rparr>
     \<and> length (data (updateCell rowIndex col v s)) = length (data s)
     \<and> (data (updateCell rowIndex col v s) ! nat rowIndex) col = Some v
     \<and> (data (updateCell rowIndex col v s) ! nat rowIndex) ''id'' = (data s ! nat rowIndex) ''id''
     \<and> (\<forall>c. c \<noteq> col \<longrightarrow>
          (data (updateCell rowIndex col v s) ! nat rowIndex) c = (data s ! nat rowIndex) c)
     \<and> (\<forall>i<length (data s). i \<noteq> nat rowIndex \<longrightarrow>
          data (updateCell rowIndex col v s) ! i = data s ! i)
     \<and> cellErrors (updateCell rowIndex col v s) = cellErrors s
     \<and> duplicates (updateCell rowIndex col v s) = duplicates s
     \<and> currentPage (updateCell rowIndex col v s) = currentPage s
     \<and> pageSize (updateCell rowIndex col v s) = pageSize s
     \<and> selectedRowIds (updateCell rowIndex col v s) = selectedRowIds s
     \<and> isDeleteDialogOpen (updateCell rowIndex col v s) = isDeleteDialogOpen s
     \<and> autocomplete (updateCell rowIndex col v s) = autocomplete s"
proof -
  let ?s' = "updateCell rowIndex col v s"
  have d: "data ?s' = (data s)[nat rowIndex := (data s ! nat rowIndex)(col \<mapsto> v)]"
    using assms(1,2) by (rule updateCell_in_range)
  from assms(1,2) have n: "nat rowIndex < length (data s)" by simp
  have 1: "?s' = s\<lparr>data := (data s)[nat rowIndex := (data s ! nat rowIndex)(col \<mapsto> v)]\<rparr>"
    using updateCell_frame[of rowIndex col v s] d by simp
  have 2: "length (data ?s') = length (data s)" by (rule length_updateCell)
  have 3: "(data ?s' ! nat rowIndex) col = Some v" using n by (simp add: d)
  have 4: "(data ?s' ! nat rowIndex) ''id'' = (data s ! nat rowIndex) ''id''"
    using n assms(3) by (simp add: d)
  have 5: "\<forall>c. c \<noteq> col \<longrightarrow> (data ?s' ! nat rowIndex) c = (data s ! nat rowIndex) c"
    using n by (simp add: d)
  have 6: "\<forall>i<length (data s). i \<noteq> nat rowIndex \<longrightarrow> data ?s' ! i = data s ! i"
    by (simp add: d)
  have 7: "cellErrors ?s' = cellErrors s" "duplicates ?s' = duplicates s"
    "currentPage ?s' = currentPage s" "pageSize ?s' = pageSize s"
    "selectedRowIds ?s' = selectedRowIds s" "isDeleteDialogOpen ?s' = isDeleteDialogOpen s"
    "autocomplete ?s' = autocomplete s"
    by (simp_all add: updateCell_def)
  from 1 2 3 4 5 6 7 show ?thesis by blast
qed

text \<open>
  Claim C3 as stated fails when the named column is \<open>id\<close>: the identifier of the
  addressed row is then the field that is replaced.
\<close>

theorem updateCell_identifier_counterexample:
  "0 \<le> (0::int) \<and> (0::int) < int (length (data state3))
   \<and> (data (updateCell 0 ''id'' (JStr ''zz'') state3) ! 0) ''id'' \<noteq> (data state3 ! 0) ''id''"
  by (simp add: updateCell_def state3_def initialState_def row1_def)

theorem updateCell_replaces_named_field_witness:
  "(data (updateCell 1 ''age'' (JNum (Fin 42)) state3) ! 1) ''age'' = Some (JNum (Fin 42))
   \<and> (data (updateCell 1 ''age'' (JNum (Fin 42)) state3) ! 1) ''id'' = Some (JStr ''r2'')
   \<and> data (updateCell 1 ''age'' (JNum (Fin 42)) state3) ! 0 = row1
   \<and> selectedRowIds (updateCell 1 ''age'' (JNum (Fin 42)) state3) = {|''r2''|}"
proof -
  have h1: "0 \<le> (1::int)" by simp
  have h2: "(1::int) < int (length (data state3))" by (simp add: state3_def initialState_def)
  have h3: "''age'' \<noteq> ''id''" by simp
  have n: "nat 1 = 1" by simp
  have a: "(data state3 ! 1) ''id'' = Some (JStr ''r2'')" "data state3 ! 0 = row1"
    "selectedRowIds state3 = {|''r2''|}" "(0::nat) < length (data state3)"
    by (simp_all add: state3_def initialState_def row2_def)
  let ?u = "updateCell 1 ''age'' (JNum (Fin 42)) state3"
  note t = updateCell_replaces_named_field [OF h1 h2 h3, of "JNum (Fin 42)", unfolded n]
  from t have c1: "(data ?u ! 1) ''age'' = Some (JNum (Fin 42))" by blast
  from t have c2: "(data ?u ! 1) ''id'' = (data state3 ! 1) ''id''" by blast
  from t have c3: "\<forall>i<length (data state3). i \<noteq> 1 \<longrightarrow> data ?u ! i = data state3 ! i"
    by blast
  from t have c4: "selectedRowIds ?u = selectedRowIds state3" by blast
  from c3 a(4) have c5: "data ?u ! 0 = data state3 ! 0" by simp
  show ?thesis unfolding c1 c2 c4 c5 a by simp
qed

text \<open>
  Claim C10. For a row position out of range (negative, or at least the number of rows)
  \<open>updateCell\<close> returns the state it was given: the data and all the rest are unchanged.
  The model is a total function, so nothing is thrown.
\<close>

theorem updateCell_out_of_range_unchanged:
  "rowIndex < 0 \<or> int (length (data s)) \<le> rowIndex \<Longrightarrow> updateCell rowIndex col v s = s"
  by (rule updateCell_skips_every_row)

theorem updateCell_out_of_range_unchanged_witness:
  "updateCell (- 1) ''age'' JNull state3 = state3 \<and> updateCell 3 ''age'' JNull state3 = state3"
proof -
  have l: "int (length (data state3)) = 3" by (simp add: state3_def initialState_def)
  have "updateCell (- 1) ''age'' JNull state3 = state3"
    by (rule updateCell_out_of_range_unchanged) simp
  moreover have "updateCell 3 ''age'' JNull state3 = state3"
    by (rule updateCell_out_of_range_unchanged) (simp add: l)
  ultimately show ?thesis by simp
qed

text \<open>
  Claim C6. \<open>deleteSelectedRows\<close> keeps exactly the rows whose identifier is not in the
  selection, unchanged and in their order, empties the selection, closes the dialog and
  changes nothing else; the rows kept do not depend on the page or the page size set
  before the deletion.
\<close>

theorem deleteSelectedRows_by_identifier:
  "data (deleteSelectedRows s) =
     filter (\<lambda>r. \<not> has (selectedRowIds s) (getProp r ''id'')) (data s)
   \<and> subseq (data (deleteSelectedRows s)) (data s)
   \<and> (\<forall>r \<in> set (data s).
        r \<in> set (data (deleteSelectedRows s)) \<longleftrightarrow> \<not> has (selectedRowIds s) (getProp r ''id''))
   \<and> selectedRowIds (deleteSelectedRows s) = {||}
   \<and> isDeleteDialogOpen (deleteSelectedRows s) = False
   \<and> deleteSelectedRows s =
       s\<lparr>data := data (deleteSelectedRows s), selectedRowIds := {||},
         isDeleteDialogOpen := False\<rparr>
   \<and> data (deleteSelectedRows (setPageSize n (setCurrentPage p s))) =
       data (deleteSelectedRows s)"
  by (simp add: deleteSelectedRows_def setPageSize_def setCurrentPage_def)

theorem deleteSelectedRows_by_identifier_witness:
  "data (deleteSelectedRows (setPageSize 1 (setCurrentPage 2 state3))) = [row1, row3]
   \<and> data (deleteSelectedRows state3) = [row1, row3]
   \<and> selectedRowIds (deleteSelectedRows state3) = {||}"
proof -
  have f: "filter (\<lambda>r. \<not> has (selectedRowIds state3) (getProp r ''id'')) (data state3) =
      [row1, row3]"
    by (simp add: state3_def initialState_def has_def getProp_def Object_prototype_keys_def row1_def row2_def row3_def)
  note t = deleteSelectedRows_by_identifier [of state3 1 2]
  from t have a: "data (deleteSelectedRows state3) =
     filter (\<lambda>r. \<not> has (selectedRowIds state3) (getProp r ''id'')) (data state3)" by blast
  from t have b: "data (deleteSelectedRows (setPageSize 1 (setCurrentPage 2 state3))) =
       data (deleteSelectedRows state3)" by blast
  from t have c: "selectedRowIds (deleteSelectedRows state3) = {||}" by blast
  show ?thesis unfolding b c a f by simp
qed

lemma fcard_pos_iff: "(0 < fcard A) = (A \<noteq> {||})"
proof (cases "A = {||}")
  case True
  then show ?thesis by (simp add: fcard_fempty)
next
  case False
  then have "fcard A \<noteq> 0" by (simp only: fcard_0_eq not_False_eq_True)
  then have "0 < fcard A" by (rule neq0_conv[THEN iffD1])
  with False show ?thesis by (simp only: not_False_eq_True)
qed

text \<open>
  Claim C8. With an empty selection \<open>openDeleteDialog\<close> returns the state unchanged;
  with a selection that is not empty it sets the dialog flag and nothing else.
\<close>

theorem openDeleteDialog_guard:
  "(selectedRowIds s = {||} \<longrightarrow> openDeleteDialog s = s)
   \<and> (selectedRowIds s \<noteq> {||} \<longrightarrow> openDeleteDialog s = s\<lparr>isDeleteDialogOpen := True\<rparr>)"
  by (simp add: openDeleteDialog_def fcard_pos_iff)

theorem openDeleteDialog_guard_witness:
  "openDeleteDialog initialState = initialState
   \<and> openDeleteDialog state3 = state3\<lparr>isDeleteDialogOpen := True\<rparr>"
proof -
  have e: "selectedRowIds initialState = {||}" by (simp add: initialState_def)
  have n: "selectedRowIds state3 \<noteq> {||}" by (simp add: state3_def)
  from openDeleteDialog_guard [of initialState] e
  have 1: "openDeleteDialog initialState = initialState" by blast
  from openDeleteDialog_guard [of state3] n
  have 2: "openDeleteDialog state3 = state3\<lparr>isDeleteDialogOpen := True\<rparr>" by blast
  from 1 2 show ?thesis by (rule conjI)
qed

text \<open>
  Claim C4 as stated fails: activating another cell with a key that is not empty keeps
  the suggestion list of the previous session.
\<close>

theorem setActiveAutocompleteCell_counterexample:
  "activeCellKey (autocomplete state3) \<noteq> Some ''r2-school''
   \<and> suggestions (autocomplete (setActiveAutocompleteCell (Some ''r2-school'') state3)) \<noteq> []"
  by (simp add: setActiveAutocompleteCell_def state3_def)

text \<open>
  Claim C4, as amended. \<open>setActiveAutocompleteCell\<close> with a key that is neither \<open>null\<close>
  nor empty sets the active cell and resets the highlighted index to -1, and changes
  nothing else: the suggestion list is kept. The list is emptied when the key is \<open>null\<close>
  or the empty string. The data is never affected.
\<close>

theorem setActiveAutocompleteCell_session:
  "(cellKey \<noteq> None \<and> cellKey \<noteq> Some [] \<longrightarrow>
      setActiveAutocompleteCell cellKey s =
        s\<lparr>autocomplete := (autocomplete s)\<lparr>activeCellKey := cellKey, highlightedIndex := - 1\<rparr>\<rparr>
      \<and> suggestions (autocomplete (setActiveAutocompleteCell cellKey s)) =
          suggestions (autocomplete s))
   \<and> (cellKey = None \<or> cellKey = Some [] \<longrightarrow>
      suggestions (autocomplete (setActiveAutocompleteCell cellKey s)) = [])
   \<and> activeCellKey (autocomplete (setActiveAutocompleteCell cellKey s)) = cellKey
   \<and> highlightedIndex (autocomplete (setActiveAutocompleteCell cellKey s)) = - 1
   \<and> data (setActiveAutocompleteCell cellKey s) = data s"
  by (simp add: setActiveAutocompleteCell_def)

theorem setActiveAutocompleteCell_session_witness:
  "suggestions (autocomplete (setActiveAutocompleteCell (Some ''r2-school'') state3)) = [school1]
   \<and> suggestions (autocomplete (setActiveAutocompleteCell None state3)) = []
   \<and> highlightedIndex (autocomplete (setActiveAutocompleteCell (Some ''r2-school'') state3)) = - 1
   \<and> data (setActiveAutocompleteCell (Some ''r2-school'') state3) = [row1, row2, row3]"
proof -
  have k: "Some ''r2-school'' \<noteq> None \<and> Some ''r2-school'' \<noteq> Some []" by simp
  have s3: "suggestions (autocomplete state3) = [school1]" "data state3 = [row1, row2, row3]"
    by (simp_all add: state3_def initialState_def)
  note t = setActiveAutocompleteCell_session [of "Some ''r2-school''" state3]
  from t k have a: "suggestions (autocomplete (setActiveAutocompleteCell (Some ''r2-school'') state3)) =
          suggestions (autocomplete state3)" by blast
  from t have b: "highlightedIndex (autocomplete (setActiveAutocompleteCell (Some ''r2-school'') state3)) = - 1"
    by blast
  from t have c: "data (setActiveAutocompleteCell (Some ''r2-school'') state3) = data state3"
    by blast
  from setActiveAutocompleteCell_session [of None state3]
  have d: "suggestions (autocomplete (setActiveAutocompleteCell None state3)) = []" by blast
  show ?thesis unfolding a b c d s3 by simp
qed

lemma handleRemoveDuplicates_fields:
  "currentPage (handleRemoveDuplicates shape s) = currentPage s
   \<and> pageSize (handleRemoveDuplicates shape s) = pageSize s
   \<and> data (handleRemoveDuplicates shape s) = removeDuplicates (data s) ''email''"
  by (simp add: handleRemoveDuplicates_def Let_def setData_def setDuplicates_def setCellErrors_def)

lemma removeDuplicates_loop_same_key:
  "\<forall>r \<in> set rows. getProp r k = v \<Longrightarrow> \<not> emptyKey v \<Longrightarrow> v \<in> S \<Longrightarrow>
   removeDuplicates_loop rows k S = []"
  by (induction rows) (auto simp: emptyKey_def Let_def)

lemma removeDuplicates_state23:
  "removeDuplicates (data state23) ''email'' = [rowN 0]"
proof -
  have d: "data state23 = rowN 0 # map rowN [1..<23]"
    by (simp add: state23_def initialState_def upt_conv_Cons)
  have k: "getProp (rowN i) ''email'' = JStr ''a@x.org''" for i
    by (simp add: rowN_def getProp_def Object_prototype_keys_def)
  have "removeDuplicates_loop (map rowN [1..<23]) ''email'' {JStr ''a@x.org''} = []"
    by (rule removeDuplicates_loop_same_key[where v = "JStr ''a@x.org''"])
       (auto simp: k emptyKey_def)
  then show ?thesis
    by (simp add: removeDuplicates_def d k)
qed

text \<open>
  Claim C5 at the failing input: on page 3 of 23 rows, ten to a page, removing the
  duplicates leaves one row, hence one page, and the current page is still 3.
\<close>

theorem handleRemoveDuplicates_page_not_clamped:
  "length (data state23) = 23 \<and> currentPage state23 = 3 \<and> pageSize state23 = 10
   \<and> totalPages (length (data state23)) (pageSize state23) = Fin 3
   \<and> data (handleRemoveDuplicates shape state23) = [rowN 0]
   \<and> totalPages (length (data (handleRemoveDuplicates shape state23)))
        (pageSize (handleRemoveDuplicates shape state23)) = Fin 1
   \<and> currentPage (handleRemoveDuplicates shape state23) = 3"
proof -
  have s: "length (data state23) = 23" "currentPage state23 = 3" "pageSize state23 = 10"
    by (simp_all add: state23_def initialState_def)
  have c3: "\<lceil>(23::rat) / 10\<rceil> = 3" by (rule ceiling_unique) simp_all
  have c1: "\<lceil>(1::rat) / 10\<rceil> = 1" by (rule ceiling_unique) simp_all
  show ?thesis
    by (simp add: handleRemoveDuplicates_fields removeDuplicates_state23 s totalPages_def c3 c1)
qed

lemma setPageSize_example:
  "currentPage (setPageSize 5 state23) = 1
   \<and> totalPages (length (data (setPageSize 5 state23))) (pageSize (setPageSize 5 state23)) = Fin 5"
proof -
  have c: "\<lceil>(23::rat) / 5\<rceil> = 5" by (rule ceiling_unique) simp_all
  show ?thesis by (simp add: setPageSize_def state23_def initialState_def totalPages_def c)
qed

section \<open>Properties of the school service and of validation\<close>

lemma toLowerCase_char_cases:
  "toLowerCase_char c = c \<or>
   (c \<in> set upperCaseLetters \<and> toLowerCase_char c \<in> set lowerCaseLetters)"
proof (cases "map_of (zip upperCaseLetters lowerCaseLetters) c")
  case None
  then show ?thesis by (simp add: toLowerCase_char_def)
next
  case (Some l)
  then have "(c, l) \<in> set (zip upperCaseLetters lowerCaseLetters)" by (rule map_of_SomeD)
  then have "c \<in> set upperCaseLetters" "l \<in> set lowerCaseLetters"
    by (auto dest: set_zip_leftD set_zip_rightD)
  with Some show ?thesis by (simp add: toLowerCase_char_def)
qed

lemma isWhiteSpace_toLowerCase_char: "isWhiteSpace (toLowerCase_char c) = isWhiteSpace c"
proof -
  have u: "\<not> isWhiteSpace x" if "x \<in> set upperCaseLetters" for x
    using that by (auto simp: isWhiteSpace_def upperCaseLetters_def)
  have l: "\<not> isWhiteSpace x" if "x \<in> set lowerCaseLetters" for x
    using that by (auto simp: isWhiteSpace_def lowerCaseLetters_def)
  from toLowerCase_char_cases[of c] show ?thesis
  proof
    assume "toLowerCase_char c = c"
    then show ?thesis by simp
  next
    assume "c \<in> set upperCaseLetters \<and> toLowerCase_char c \<in> set lowerCaseLetters"
    then show ?thesis using u l by blast
  qed
qed

lemma dropWhile_toLowerCase:
  "dropWhile isWhiteSpace (toLowerCase str) = toLowerCase (dropWhile isWhiteSpace str)"
  by (induction str) (simp_all add: toLowerCase_def isWhiteSpace_toLowerCase_char)

lemma rev_toLowerCase: "rev (toLowerCase str) = toLowerCase (rev str)"
  by (simp add: toLowerCase_def rev_map)

lemma trim_toLowerCase: "trim (toLowerCase str) = toLowerCase (trim str)"
  by (simp add: trim_def dropWhile_toLowerCase rev_toLowerCase)

lemma trim_Nil: "trim [] = []"
  by (simp add: trim_def)

text \<open>The names of the table in lower case.\<close>

lemma toLowerCase_names:
  "toLowerCase ''Springfield Elementary School'' = ''springfield elementary school''"
  "toLowerCase ''Springfield High School'' = ''springfield high school''"
  "toLowerCase ''Riverside Academy'' = ''riverside academy''"
  "toLowerCase ''Riverside Middle School'' = ''riverside middle school''"
  "toLowerCase ''Oak Grove Elementary'' = ''oak grove elementary''"
  "toLowerCase ''Oak Grove High School'' = ''oak grove high school''"
  "toLowerCase ''Westside Preparatory Academy'' = ''westside preparatory academy''"
  "toLowerCase ''Westside Charter School'' = ''westside charter school''"
  "toLowerCase ''Central City Academy'' = ''central city academy''"
  "toLowerCase ''Central High School'' = ''central high school''"
  "toLowerCase ''Northview Elementary'' = ''northview elementary''"
  "toLowerCase ''Northview Middle School'' = ''northview middle school''"
  "toLowerCase ''Southside Academy'' = ''southside academy''"
  "toLowerCase ''Lakeside Academy'' = ''lakeside academy''"
  "toLowerCase ''Mountain View School'' = ''mountain view school''"
  "toLowerCase ''Valley Heights Academy'' = ''valley heights academy''"
  by code_simp+

text \<open>
  Claim C7. A call that is not cancelled resolves to the empty list when the trimmed
  query has fewer than 2 characters, and otherwise to the first 10, in source order, of
  the schools whose lower-cased name contains the lower-cased trimmed query; the result
  never has more than 10 entries. For a query that short the table of schools is not
  read: the result is the empty list whatever the table holds.
\<close>

theorem fetchSchools_result:
  assumes "signal \<noteq> Some True"
  shows "fetchSchools query signal =
     Inr (if length (trim query) < 2 then []
          else take 10
            (filter (\<lambda>school. \<exists>ps ss. toLowerCase (name school) = ps @ toLowerCase (trim query) @ ss)
               MOCK_SCHOOLS))
   \<and> (\<exists>result. fetchSchools query signal = Inr result \<and> length result \<le> 10
        \<and> subseq result MOCK_SCHOOLS)
   \<and> fetchSchools query signal = fetchSchools_on MOCK_SCHOOLS query signal
   \<and> (length (trim query) < 2 \<longrightarrow> (\<forall>schools. fetchSchools_on schools query signal = Inr []))"
proof -
  have e: "(query = [] \<or> length (trim query) < 2) = (length (trim query) < 2)"
    by (auto simp: trim_Nil)
  have 1: "fetchSchools query signal =
     Inr (if length (trim query) < 2 then []
          else take 10
            (filter (\<lambda>school. \<exists>ps ss. toLowerCase (name school) = ps @ toLowerCase (trim query) @ ss)
               MOCK_SCHOOLS))"
    using assms by (simp add: fetchSchools_def e trim_toLowerCase sublist_def Let_def)
  have "subseq (take 10 (filter P MOCK_SCHOOLS)) MOCK_SCHOOLS" for P
  proof -
    have "subseq (take 10 (filter P MOCK_SCHOOLS)) (filter P MOCK_SCHOOLS)"
      by (rule prefix_imp_subseq) (rule take_is_prefix)
    moreover have "subseq (filter P MOCK_SCHOOLS) MOCK_SCHOOLS"
      by (rule subseq_filter_left)
    ultimately show ?thesis by (rule subseq_order.order_trans)
  qed
  then have 2: "\<exists>result. fetchSchools query signal = Inr result \<and> length result \<le> 10
        \<and> subseq result MOCK_SCHOOLS"
    unfolding 1 by simp
  have 3: "fetchSchools query signal = fetchSchools_on MOCK_SCHOOLS query signal"
    by (simp add: fetchSchools_def fetchSchools_on_def)
  have 4: "length (trim query) < 2 \<longrightarrow> (\<forall>schools. fetchSchools_on schools query signal = Inr [])"
    using assms by (simp add: fetchSchools_on_def)
  from 1 2 3 4 show ?thesis by blast
qed

theorem fetchSchools_result_witness:
  "fetchSchools '' OAK gr '' None =
     Inr [\<lparr>sid = ''5'', name = ''Oak Grove Elementary'',
             location = Some ''Oak Grove'', stype = Some ''public''\<rparr>,
          \<lparr>sid = ''6'', name = ''Oak Grove High School'',
             location = Some ''Oak Grove'', stype = Some ''public''\<rparr>]
   \<and> fetchSchools '' a '' None = Inr []
   \<and> fetchSchools_on [school1] '' a '' None = Inr []"
proof -
  have n: "(None :: bool option) \<noteq> Some True" by simp
  have t1: "trim '' OAK gr '' = ''OAK gr''" "trim '' a '' = ''a''"
    by (simp_all add: trim_def isWhiteSpace_def)
  have sh: "length (trim '' a '') < 2" unfolding t1 by simp
  have l: "toLowerCase ''OAK gr'' = ''oak gr''"
    by (simp add: toLowerCase_def toLowerCase_char_def upperCaseLetters_def lowerCaseLetters_def)
  have f: "filter (\<lambda>school. sublist ''oak gr'' (toLowerCase (name school))) MOCK_SCHOOLS =
     [\<lparr>sid = ''5'', name = ''Oak Grove Elementary'',
             location = Some ''Oak Grove'', stype = Some ''public''\<rparr>,
          \<lparr>sid = ''6'', name = ''Oak Grove High School'',
             location = Some ''Oak Grove'', stype = Some ''public''\<rparr>]"
    by (simp add: MOCK_SCHOOLS_def toLowerCase_names sublist_code)
  from fetchSchools_result [OF n, of "'' OAK gr ''"]
  have a: "fetchSchools '' OAK gr '' None =
     Inr (take 10 (filter (\<lambda>school. sublist ''oak gr'' (toLowerCase (name school))) MOCK_SCHOOLS))"
    unfolding t1 l sublist_def by simp
  from fetchSchools_result [OF n, of "'' a ''"]
  have b: "fetchSchools '' a '' None = Inr []" unfolding t1 by simp
  from fetchSchools_result [OF n, of "'' a ''"] sh
  have c: "fetchSchools_on [school1] '' a '' None = Inr []" by blast
  show ?thesis unfolding a b c f by simp
qed

text \<open>A no-break space before the query is trimmed like a space.\<close>

lemma fetchSchools_no_break_space:
  "fetchSchools (CHR 0xA0 # ''oak'') None =
     Inr [\<lparr>sid = ''5'', name = ''Oak Grove Elementary'',
             location = Some ''Oak Grove'', stype = Some ''public''\<rparr>,
          \<lparr>sid = ''6'', name = ''Oak Grove High School'',
             location = Some ''Oak Grove'', stype = Some ''public''\<rparr>]"
proof -
  have t: "trim (CHR 0xA0 # ''oak'') = ''oak''" "trim ''oak'' = ''oak''"
    by (simp_all add: trim_def isWhiteSpace_def)
  have l: "toLowerCase (CHR 0xA0 # ''oak'') = CHR 0xA0 # ''oak''"
    by (simp add: toLowerCase_def toLowerCase_char_def upperCaseLetters_def lowerCaseLetters_def)
  have f: "filter (\<lambda>school. sublist ''oak'' (toLowerCase (name school))) MOCK_SCHOOLS =
     [\<lparr>sid = ''5'', name = ''Oak Grove Elementary'',
             location = Some ''Oak Grove'', stype = Some ''public''\<rparr>,
          \<lparr>sid = ''6'', name = ''Oak Grove High School'',
             location = Some ''Oak Grove'', stype = Some ''public''\<rparr>]"
    by (simp add: MOCK_SCHOOLS_def toLowerCase_names sublist_code)
  show ?thesis
    by (simp add: fetchSchools_def Let_def l t f)
qed

lemma isInteger_of_int: "isInteger (rat_of_int i)"
  by (simp add: isInteger_def)

lemma age_issues:
  "age strToNum v = [] \<longleftrightarrow>
     (\<exists>q. toNumber strToNum v = Fin q \<and> isInteger q \<and> 0 \<le> q \<and> q \<le> 150)"
  by (cases "toNumber strToNum v") (auto simp: age_def coerce_number_def)

text \<open>
  Claim C9. Validating the field \<open>age\<close> gives no error exactly when the coerced value is
  a finite whole number between 0 and 150 inclusive; so -1 gives an error, 150 gives
  none and 151 gives an error.
\<close>

theorem validateCell_age:
  "(validateCell (ExcelRowSchema_shape strToNum others) ''age'' v r = None \<longleftrightarrow>
      (\<exists>q. toNumber strToNum v = Fin q \<and> isInteger q \<and> 0 \<le> q \<and> q \<le> 150))
   \<and> validateCell (ExcelRowSchema_shape strToNum others) ''age'' (JNum (Fin (- 1))) r =
       Some \<lparr>row = r, column = ''age'', message = ''Age cannot be negative'',
             val = JNum (Fin (- 1))\<rparr>
   \<and> validateCell (ExcelRowSchema_shape strToNum others) ''age'' (JNum (Fin 150)) r = None
   \<and> validateCell (ExcelRowSchema_shape strToNum others) ''age'' (JNum (Fin 151)) r =
       Some \<lparr>row = r, column = ''age'', message = ''Age cannot exceed 150'',
             val = JNum (Fin 151)\<rparr>"
proof -
  have i: "isInteger (- 1)" "isInteger 150" "isInteger 151"
    using isInteger_of_int[of "- 1"] isInteger_of_int[of 150] isInteger_of_int[of 151]
    by simp_all
  have 1: "validateCell (ExcelRowSchema_shape strToNum others) ''age'' v r = None \<longleftrightarrow>
      (\<exists>q. toNumber strToNum v = Fin q \<and> isInteger q \<and> 0 \<le> q \<and> q \<le> 150)"
    unfolding age_issues[symmetric]
    by (simp add: validateCell_def ExcelRowSchema_shape_def split: list.splits)
  have 2: "age strToNum (JNum (Fin (- 1))) = [''Age cannot be negative'']"
    "age strToNum (JNum (Fin 150)) = []"
    "age strToNum (JNum (Fin 151)) = [''Age cannot exceed 150'']"
    by (simp_all add: age_def coerce_number_def toNumber_def i)
  show ?thesis
    unfolding 1 by (simp add: validateCell_def ExcelRowSchema_shape_def 2)
qed

theorem validateCell_age_witness:
  "validateCell (ExcelRowSchema_shape (\<lambda>_. NaN) (\<lambda>_. None)) ''age'' (JStr ''abc'') 0 \<noteq> None
   \<and> validateCell (ExcelRowSchema_shape (\<lambda>_. NaN) (\<lambda>_. None)) ''age'' JNull 0 = None"
proof -
  have a: "\<not> (\<exists>q. toNumber (\<lambda>_. NaN) (JStr ''abc'') = Fin q \<and> isInteger q \<and> 0 \<le> q \<and> q \<le> 150)"
    by (simp add: toNumber_def)
  have "isInteger 0" using isInteger_of_int[of 0] by simp
  then have b: "\<exists>q. toNumber (\<lambda>_. NaN) JNull = Fin q \<and> isInteger q \<and> 0 \<le> q \<and> q \<le> 150"
    by (simp add: toNumber_def)
  from validateCell_age [of "\<lambda>_. NaN" "\<lambda>_. None" "JStr ''abc''" 0] a
  have 1: "validateCell (ExcelRowSchema_shape (\<lambda>_. NaN) (\<lambda>_. None)) ''age'' (JStr ''abc'') 0 \<noteq> None"
    by blast
  from validateCell_age [of "\<lambda>_. NaN" "\<lambda>_. None" JNull 0] b
  have 2: "validateCell (ExcelRowSchema_shape (\<lambda>_. NaN) (\<lambda>_. None)) ''age'' JNull 0 = None"
    by blast
  from 1 2 show ?thesis by (rule conjI)
qed

end
